theory Spec2Isabelle
  imports Complex_Main "HOL-Library.Word"
begin

section \<open>Utilities: \<open>sanitizeFilename\<close> and \<open>randomDelay\<close>\<close>

text \<open>
  A JavaScript string is a sequence of 16-bit UTF-16 code units. The regular expressions
  of \<open>sanitizeFilename\<close> carry no \<open>u\<close> flag, so they work code unit by code unit.
\<close>

type_synonym codeunit = "16 word"
type_synonym jsstring = "codeunit list"

text \<open>The character class \<open>[<>:"/\|?*]\<close>.\<close>

definition invalid_char :: "codeunit \<Rightarrow> bool" where
  "invalid_char c \<longleftrightarrow>
     c = 0x3C \<or> c = 0x3E \<or> c = 0x3A \<or> c = 0x22 \<or> c = 0x2F \<or> c = 0x5C \<or>
     c = 0x7C \<or> c = 0x3F \<or> c = 0x2A"

text \<open>
  The class \<open>\s\<close> of ECMAScript: tab, line feed, vertical tab, form feed, carriage
  return, space, no-break space, the Unicode space separators, the line and paragraph
  separators and the byte order mark.
\<close>

definition is_space :: "codeunit \<Rightarrow> bool" where
  "is_space c \<longleftrightarrow>
     c = 0x09 \<or> c = 0x0A \<or> c = 0x0B \<or> c = 0x0C \<or> c = 0x0D \<or> c = 0x20 \<or>
     c = 0xA0 \<or> c = 0x1680 \<or> (0x2000 \<le> c \<and> c \<le> 0x200A) \<or>
     c = 0x2028 \<or> c = 0x2029 \<or> c = 0x202F \<or> c = 0x205F \<or> c = 0x3000 \<or>
     c = 0xFEFF"

text \<open>\<open>.replace(/[<>:"/\|?*]/g, '-')\<close>: every invalid character becomes a hyphen.\<close>

definition replace_invalid :: "jsstring \<Rightarrow> jsstring" where
  "replace_invalid s = map (\<lambda>c. if invalid_char c then 0x2D else c) s"

text \<open>\<open>.replace(/\s+/g, '_')\<close>: every maximal run of white space becomes one underscore.\<close>

function replace_spaces :: "jsstring \<Rightarrow> jsstring" where
  "replace_spaces [] = []"
| "replace_spaces (c # cs) =
     (if is_space c then 0x5F # replace_spaces (dropWhile is_space cs)
      else c # replace_spaces cs)"
  by pat_completeness auto
termination
  by (relation "measure length") (auto simp: length_dropWhile_le less_Suc_eq_le)

text \<open>\<open>.substring(0, 200)\<close> keeps the first 200 code units.\<close>

definition sanitizeFilename :: "jsstring \<Rightarrow> jsstring" where
  "sanitizeFilename filename = take 200 (replace_spaces (replace_invalid filename))"


section \<open>Errors, results and the orchestration state\<close>

text \<open>
  A thrown JavaScript \<open>Error\<close> is a value carrying its message; a call that may throw
  returns \<open>error + 'a\<close>, with \<open>Inl\<close> for the exception.
\<close>

datatype error = Error string

type_synonym 'a result = "error + 'a"

fun message :: "error \<Rightarrow> string" where
  "message (Error m) = m"

text \<open>
  The components below \<open>SunoBot\<close> that the orchestration calls. Every call is recorded
  in the trace with the job (or round) it was made for; session-level calls carry 0.
\<close>

datatype hook =
    AuthInitialize | AuthLogin | AuthClose | BotClose
  | CreatorCreateSong | PageWaitForTimeout | DmDownloadBothSongs | IncrementUsage

datatype event =
    Status string
  | Invoke hook nat
  | Sleep nat
  | BatchComplete nat nat nat

text \<open>What \<open>authManager.login()\<close> resolves to: \<open>true\<close>, or the result object of
  \<open>loginWithGoogle\<close> with its \<open>success\<close> flag.\<close>

datatype login_value = LoginTrue | LoginObject bool

record download =
  path :: string
  size_bytes :: nat
  filename :: string

record download_result =
  downloads :: "download list"
  count :: nat

text \<open>
  The variables the request handlers and the bot mutate: the module-level
  \<open>currentBot\<close> and \<open>isProcessing\<close>, the handler's local \<open>bot\<close>, \<open>successCount\<close>
  and \<open>failCount\<close>, the bot's \<open>authManager\<close> field, and the trace of everything
  broadcast or invoked.
\<close>

record server =
  trace :: "event list"
  hasAuthManager :: bool
  botCreated :: bool
  currentBot :: bool
  isProcessing :: bool
  successCount :: nat
  failCount :: nat

type_synonym 'a prog = "server \<Rightarrow> 'a result \<times> server"

definition returnP :: "'a \<Rightarrow> 'a prog" where
  "returnP x = (\<lambda>s. (Inr x, s))"

definition throwP :: "error \<Rightarrow> 'a prog" where
  "throwP e = (\<lambda>s. (Inl e, s))"

definition bindP :: "'a prog \<Rightarrow> ('a \<Rightarrow> 'b prog) \<Rightarrow> 'b prog" where
  "bindP m f = (\<lambda>s. case m s of (Inl e, s') \<Rightarrow> (Inl e, s') | (Inr x, s') \<Rightarrow> f x s')"

definition thenP :: "'a prog \<Rightarrow> 'b prog \<Rightarrow> 'b prog" where
  "thenP m n = bindP m (\<lambda>_. n)"

text \<open>\<open>try { m } catch (e) { h e }\<close>\<close>

definition try_catch :: "'a prog \<Rightarrow> (error \<Rightarrow> 'a prog) \<Rightarrow> 'a prog" where
  "try_catch m h = (\<lambda>s. case m s of (Inl e, s') \<Rightarrow> h e s' | (Inr x, s') \<Rightarrow> (Inr x, s'))"

text \<open>
  \<open>try { m } finally { f }\<close>: \<open>f\<close> runs whatever \<open>m\<close> did; an exception of \<open>f\<close> replaces
  the outcome of \<open>m\<close>.
\<close>

definition try_finally :: "'a prog \<Rightarrow> unit prog \<Rightarrow> 'a prog" where
  "try_finally m f =
     (\<lambda>s. case m s of (r, s') \<Rightarrow>
        (case f s' of (Inl e, s'') \<Rightarrow> (Inl e, s'') | (Inr _, s'') \<Rightarrow> (r, s'')))"

definition emit :: "event \<Rightarrow> unit prog" where
  "emit ev = (\<lambda>s. (Inr (), s\<lparr>trace := trace s @ [ev]\<rparr>))"

text \<open>A call of a lower component for job \<open>i\<close>, whose outcome is \<open>r\<close>.\<close>

definition invoke :: "hook \<Rightarrow> nat \<Rightarrow> 'a result \<Rightarrow> 'a prog" where
  "invoke h i r = (\<lambda>s. (r, s\<lparr>trace := trace s @ [Invoke h i]\<rparr>))"

definition modify :: "(server \<Rightarrow> server) \<Rightarrow> unit prog" where
  "modify f = (\<lambda>s. (Inr (), f s))"

text \<open>
  The outcomes of the lower components in one run. \<open>preset_usage i\<close> is \<open>None\<close> when the
  batch loop makes no \<open>incrementUsage\<close> call for job \<open>i\<close> (random mode off, a single preset
  in the category, or the drawn preset is the selected one).
\<close>

record env =
  auth_initialize :: "unit result"
  auth_login :: "login_value result"
  auth_close :: "unit result"
  creator_createSong :: "nat \<Rightarrow> unit result"
  page_waitForTimeout :: "nat \<Rightarrow> unit result"
  dm_downloadBothSongs :: "nat \<Rightarrow> download_result result"
  preset_usage :: "nat \<Rightarrow> unit result option"

section \<open>\<open>SunoBot\<close>\<close>

definition bot_initialize :: "env \<Rightarrow> bool prog" where
  "bot_initialize ev =
     try_catch
       (thenP (emit (Status ''loading_config''))
       (thenP (emit (Status ''initializing_browser''))
       (thenP (modify (\<lambda>s. s\<lparr>hasAuthManager := True\<rparr>))
       (thenP (invoke AuthInitialize 0 (auth_initialize ev))
              (returnP True)))))
       (\<lambda>e. throwP e)"

text \<open>\<open>login\<close> awaits \<open>authManager.login()\<close> and does not look at the value it resolves to.\<close>

definition bot_login :: "env \<Rightarrow> bool prog" where
  "bot_login ev =
     try_catch
       (thenP (emit (Status ''authenticating''))
       (thenP (invoke AuthLogin 0 (auth_login ev))
       (thenP (emit (Status ''authenticated''))
              (returnP True))))
       (\<lambda>e. thenP (emit (Status ''auth_failed'')) (throwP e))"

definition bot_createSong :: "env \<Rightarrow> nat \<Rightarrow> unit prog" where
  "bot_createSong ev i =
     try_catch
       (thenP (emit (Status ''creating_song''))
       (thenP (invoke CreatorCreateSong i (creator_createSong ev i))
              (emit (Status ''song_created''))))
       (\<lambda>e. thenP (emit (Status ''creation_failed'')) (throwP e))"

text \<open>
  \<open>waitForCompletion\<close> is a plain wait of the configured time: it reports
  \<open>song_completed\<close> when the wait returns, and never looks at the listing.
\<close>

definition bot_waitForCompletion :: "env \<Rightarrow> nat \<Rightarrow> bool prog" where
  "bot_waitForCompletion ev i =
     try_catch
       (thenP (emit (Status ''waiting_for_completion''))
       (thenP (invoke PageWaitForTimeout i (page_waitForTimeout ev i))
       (thenP (emit (Status ''song_completed''))
              (returnP True))))
       (\<lambda>e. thenP (emit (Status ''completion_timeout'')) (throwP e))"

definition bot_downloadBothSongs :: "env \<Rightarrow> nat \<Rightarrow> download_result prog" where
  "bot_downloadBothSongs ev i =
     try_catch
       (thenP (emit (Status ''downloading''))
       (bindP (invoke DmDownloadBothSongs i (dm_downloadBothSongs ev i)) (\<lambda>r.
        thenP (emit (Status ''download_complete''))
              (returnP r))))
       (\<lambda>e. thenP (emit (Status ''download_failed'')) (throwP e))"

definition bot_close :: "env \<Rightarrow> unit prog" where
  "bot_close ev =
     thenP (emit (Invoke BotClose 0))
       (\<lambda>s. if hasAuthManager s then invoke AuthClose 0 (auth_close ev) s else returnP () s)"

text \<open>One round of \<open>automateFullProcess\<close>; it returns the number of files of the round.\<close>

definition round_body :: "env \<Rightarrow> nat \<Rightarrow> nat prog" where
  "round_body ev r =
     thenP (emit (Status ''creating_song''))
     (thenP (bot_createSong ev r)
     (thenP (emit (Status ''waiting_for_generation''))
     (thenP (invoke PageWaitForTimeout r (page_waitForTimeout ev r))
     (bindP (bot_downloadBothSongs ev r) (\<lambda>d.
      thenP (emit (Status ''round_complete''))
            (returnP (count d)))))))"

text \<open>\<open>for (let round = 1; round <= numberOfRounds; round++)\<close>, with \<open>n\<close> rounds left.\<close>

fun rounds_from :: "env \<Rightarrow> nat \<Rightarrow> nat \<Rightarrow> nat \<Rightarrow> nat prog" where
  "rounds_from ev r 0 acc = returnP acc"
| "rounds_from ev r (Suc n) acc =
     bindP (round_body ev r) (\<lambda>c. rounds_from ev (Suc r) n (acc + c))"

definition automateFullProcess :: "env \<Rightarrow> nat \<Rightarrow> nat prog" where
  "automateFullProcess ev numberOfRounds =
     try_catch
       (thenP (\<lambda>s. if \<not> hasAuthManager s then bot_initialize ev s else returnP True s)
       (thenP (bot_login ev)
       (bindP (rounds_from ev 1 numberOfRounds 0) (\<lambda>totalDownloadCount.
        thenP (emit (Status ''complete''))
              (returnP totalDownloadCount)))))
       (\<lambda>e. thenP (emit (Status ''failed'')) (throwP e))"

section \<open>The request handlers\<close>

definition initial :: server where
  "initial = \<lparr>trace = [], hasAuthManager = False, botCreated = False, currentBot = False,
              isProcessing = False, successCount = 0, failCount = 0\<rparr>"

text \<open>The asynchronous part of \<open>POST /api/create-song\<close>.\<close>

definition create_song_run :: "env \<Rightarrow> nat \<Rightarrow> unit prog" where
  "create_song_run ev rounds =
     thenP (modify (\<lambda>s. s\<lparr>isProcessing := True, botCreated := True, currentBot := True\<rparr>))
       (try_finally
          (try_catch
             (thenP (automateFullProcess ev rounds) (emit (Status ''complete'')))
             (\<lambda>e. thenP (emit (Status ''error'')) (emit (Sleep 30000))))
          (thenP (bot_close ev)
                 (modify (\<lambda>s. s\<lparr>currentBot := False, isProcessing := False\<rparr>))))"

text \<open>The body of the batch loop for job \<open>i\<close> of \<open>songsCount\<close>.\<close>

definition batch_job :: "env \<Rightarrow> nat \<Rightarrow> nat \<Rightarrow> unit prog" where
  "batch_job ev songsCount i =
     try_catch
       (thenP (case preset_usage ev i of
                 None \<Rightarrow> returnP ()
               | Some r \<Rightarrow> invoke IncrementUsage i r)
       (thenP (emit (Status ''batch_progress''))
       (thenP (bot_createSong ev i)
       (thenP (bot_waitForCompletion ev i)
       (thenP (bot_downloadBothSongs ev i)
       (thenP (modify (\<lambda>s. s\<lparr>successCount := successCount s + 1\<rparr>))
              (if i + 1 < songsCount
               then thenP (emit (Status ''batch_waiting'')) (emit (Sleep 10000))
               else returnP ())))))))
       (\<lambda>e. thenP (modify (\<lambda>s. s\<lparr>failCount := failCount s + 1\<rparr>))
                  (emit (Status ''batch_song_error'')))"

text \<open>\<open>for (let i = 0; i < songsCount; i++)\<close>, with \<open>n\<close> jobs left.\<close>

fun batch_from :: "env \<Rightarrow> nat \<Rightarrow> nat \<Rightarrow> nat \<Rightarrow> unit prog" where
  "batch_from ev songsCount i 0 = returnP ()"
| "batch_from ev songsCount i (Suc n) =
     thenP (batch_job ev songsCount i) (batch_from ev songsCount (Suc i) n)"

text \<open>The asynchronous part of \<open>POST /api/batch-create\<close>.\<close>

definition batch_run :: "env \<Rightarrow> nat \<Rightarrow> unit prog" where
  "batch_run ev songsCount =
     thenP (modify (\<lambda>s. s\<lparr>isProcessing := True, successCount := 0, failCount := 0,
                             botCreated := False\<rparr>))
       (try_finally
          (try_catch
             (thenP (modify (\<lambda>s. s\<lparr>botCreated := True, currentBot := True\<rparr>))
             (thenP (bot_initialize ev)
             (thenP (bot_login ev)
                    (batch_from ev songsCount 0 songsCount))))
             (\<lambda>e. emit (Status ''batch_error'')))
          (thenP (\<lambda>s. if botCreated s
                       then thenP (bot_close ev) (modify (\<lambda>s. s\<lparr>currentBot := False\<rparr>)) s
                       else returnP () s)
          (thenP (modify (\<lambda>s. s\<lparr>isProcessing := False\<rparr>))
                 (\<lambda>s. emit (BatchComplete songsCount (successCount s) (failCount s)) s))))"

text \<open>How often \<open>bot.close()\<close> was invoked in a trace.\<close>

definition close_count :: "event list \<Rightarrow> nat" where
  "close_count tr = length (filter (\<lambda>e. e = Invoke BotClose 0) tr)"

fun is_batch_complete :: "event \<Rightarrow> bool" where
  "is_batch_complete (BatchComplete n success failed) = True"
| "is_batch_complete _ = False"

text \<open>
  The scenario of a batch of \<open>N\<close> jobs in which job \<open>k\<close> alone fails, at its creation step:
  no preset bookkeeping throws, \<open>songCreator.createSong\<close> throws for job \<open>k\<close>, and for
  every other job creation, wait and download succeed.
\<close>

definition one_failure :: "env \<Rightarrow> nat \<Rightarrow> nat \<Rightarrow> bool" where
  "one_failure ev N k \<longleftrightarrow>
     (\<forall>i<N. (preset_usage ev i = None \<or> preset_usage ev i = Some (Inr ()))
        \<and> (if i = k then \<exists>e. creator_createSong ev i = Inl e
            else creator_createSong ev i = Inr () \<and> page_waitForTimeout ev i = Inr ()
               \<and> (\<exists>d. dm_downloadBothSongs ev i = Inr d)))"

text \<open>A batch of three jobs whose second job cannot find the style field.\<close>

definition batch_example :: env where
  "batch_example =
     \<lparr>auth_initialize = Inr (), auth_login = Inr LoginTrue, auth_close = Inr (),
      creator_createSong =
        (\<lambda>i. if i = 1 then Inl (Error ''Could not find style input field'') else Inr ()),
      page_waitForTimeout = (\<lambda>i. Inr ()),
      dm_downloadBothSongs =
        (\<lambda>i. Inr \<lparr>downloads = [\<lparr>path = ''a-v1.mp3'', size_bytes = 1, filename = ''a-v1.mp3''\<rparr>,
                                  \<lparr>path = ''a-v2.mp3'', size_bytes = 1, filename = ''a-v2.mp3''\<rparr>],
                    count = 2\<rparr>),
      preset_usage = (\<lambda>i. None)\<rparr>"

text \<open>A program is quiet when it neither closes the bot nor touches the handler's \<open>bot\<close>.\<close>

definition quiet :: "'a prog \<Rightarrow> bool" where
  "quiet p \<longleftrightarrow>
     (\<forall>s. close_count (trace (snd (p s))) = close_count (trace s)
        \<and> botCreated (snd (p s)) = botCreated s)"

text \<open>What one job of the loop does to the counters and to the trace.\<close>

definition job_effect :: "nat \<Rightarrow> nat \<Rightarrow> nat \<Rightarrow> unit result \<times> server \<Rightarrow> server \<Rightarrow> bool" where
  "job_effect i ds df rs s \<longleftrightarrow>
     fst rs = Inr ()
     \<and> successCount (snd rs) = successCount s + ds
     \<and> failCount (snd rs) = failCount s + df
     \<and> hasAuthManager (snd rs) = hasAuthManager s
     \<and> botCreated (snd rs) = botCreated s
     \<and> Invoke CreatorCreateSong i \<in> set (trace (snd rs))
     \<and> set (trace s) \<subseteq> set (trace (snd rs))
     \<and> filter is_batch_complete (trace (snd rs)) = filter is_batch_complete (trace s)"

section \<open>Calls that may throw\<close>

definition bindR :: "'a result \<Rightarrow> ('a \<Rightarrow> 'b result) \<Rightarrow> 'b result" where
  "bindR m f = (case m of Inl e \<Rightarrow> Inl e | Inr x \<Rightarrow> f x)"

definition thenR :: "'a result \<Rightarrow> 'b result \<Rightarrow> 'b result" where
  "thenR m n = bindR m (\<lambda>_. n)"

definition catchR :: "'a result \<Rightarrow> (error \<Rightarrow> 'a result) \<Rightarrow> 'a result" where
  "catchR m h = (case m of Inl e \<Rightarrow> h e | Inr x \<Rightarrow> Inr x)"

text \<open>\<open>s.includes(p)\<close> on strings.\<close>

fun starts_with :: "string \<Rightarrow> string \<Rightarrow> bool" where
  "starts_with s [] = True"
| "starts_with [] (p # ps) = False"
| "starts_with (c # cs) (p # ps) = (c = p \<and> starts_with cs ps)"

fun str_includes :: "string \<Rightarrow> string \<Rightarrow> bool" where
  "str_includes [] p = (p = [])"
| "str_includes (c # cs) p = (starts_with (c # cs) p \<or> str_includes cs p)"

section \<open>\<open>AuthManagerPersistent\<close>\<close>

text \<open>
  What the browser answers during one login. A selector loop asks the page about one
  selector after the other; \<open>email_attempt sel\<close> is the outcome of the body of the loop
  of \<open>fillEmail\<close> for the selector \<open>sel\<close>: \<open>Inr True\<close> when the field was visible and
  filled, \<open>Inr False\<close> when it was not visible, \<open>Inl e\<close> when a call threw. The two calls
  of \<open>clickNextButton\<close> are told apart by their number. \<open>page_wait\<close> is the outcome of
  the \<open>waitForTimeout\<close> pauses, which throw once the page is closed.
\<close>

record login_page =
  goto_create :: "unit result"
  create_url :: string
  lyrics_visible :: bool
  user_menu_visible :: bool
  authMethod :: string
  stored_credentials :: "(string \<times> string) option result"
  config_credentials :: "string \<times> string"
  goto_base :: "unit result"
  page_wait :: "unit result"
  sign_in_visible :: "string \<Rightarrow> bool"
  sign_in_click :: "unit result"
  google_visible :: "string \<Rightarrow> bool"
  google_click :: "unit result"
  email_attempt :: "string \<Rightarrow> bool result"
  next_attempt :: "nat \<Rightarrow> string \<Rightarrow> bool result"
  detection_visible :: "string \<Rightarrow> bool result"
  password_attempt :: "string \<Rightarrow> bool result"
  twofa_visible :: "string \<Rightarrow> bool result"
  redirect :: "unit result"
  final_url :: string
  manual_redirect :: "unit result"
  password_flow :: "unit result"

text \<open>
  \<open>for (const selector of selectors) { try { if (visible) { ...; return } } catch { continue } }\<close>
  followed by \<open>throw new Error(msg)\<close>: the first selector whose attempt succeeds.
\<close>

fun first_attempt :: "(string \<Rightarrow> bool result) \<Rightarrow> string list \<Rightarrow> string \<Rightarrow> string result" where
  "first_attempt attempt [] msg = Inl (Error msg)"
| "first_attempt attempt (sel # sels) msg =
     (case attempt sel of
        Inr True \<Rightarrow> Inr sel
      | Inr False \<Rightarrow> first_attempt attempt sels msg
      | Inl e \<Rightarrow> first_attempt attempt sels msg)"

text \<open>The detection loops: \<open>true\<close> at the first visible indicator, errors skipped.\<close>

fun any_visible :: "(string \<Rightarrow> bool result) \<Rightarrow> string list \<Rightarrow> bool" where
  "any_visible vis [] = False"
| "any_visible vis (sel # sels) =
     (case vis sel of
        Inr True \<Rightarrow> True
      | Inr False \<Rightarrow> any_visible vis sels
      | Inl e \<Rightarrow> any_visible vis sels)"

definition email_selectors :: "string list" where
  "email_selectors =
     [''input[type=\"email\"]'', ''input[name=\"identifier\"]'', ''input[id=\"identifierId\"]'',
      ''#Email'', ''input[autocomplete=\"username\"]'', ''input[aria-label*=\"email\" i]'',
      ''input[placeholder*=\"email\" i]'']"

definition password_selectors :: "string list" where
  "password_selectors =
     [''input[type=\"password\"]'', ''input[name=\"password\"]'', ''input[name=\"Passwd\"]'',
      ''#password'', ''#Passwd'', ''input[autocomplete=\"current-password\"]'',
      ''input[aria-label*=\"password\" i]'', ''input[placeholder*=\"password\" i]'']"

definition next_selectors :: "string list" where
  "next_selectors =
     [''button:has-text(\"Next\")'', ''button:has-text(\"next\")'', ''#identifierNext'',
      ''#passwordNext'', ''button[type=\"submit\"]'', ''button:has-text(\"Continue\")'',
      ''button:has-text(\"Sign in\")'', ''.VfPpkd-LgbsSe'', ''[jsname=\"LgbsSe\"]'']"

definition twofa_indicators :: "string list" where
  "twofa_indicators =
     [''text=2-Step Verification'', ''text=Verify it'' @ [CHR 0x27] @ ''s you'',
      ''text=Get a verification code'',
      ''text=Enter the code'', ''input[name=\"totpPin\"]'', ''#totpPin'',
      ''[aria-label*=\"verification code\" i]'', ''text=Use your phone to sign in'',
      ''text=Confirm your recovery email'']"

definition detection_phrases :: "string list" where
  "detection_phrases =
     [''text=automated test software'', ''text=Chrome is being controlled'',
      ''text=Suspicious activity'', ''text=Unusual activity'']"

definition sign_in_selectors :: "string list" where
  "sign_in_selectors =
     [''text=Sign In'', ''text=Sign in'', ''text=Log In'', ''text=Login'',
      ''button:has-text(\"Sign\")'', ''a:has-text(\"Sign\")'']"

definition google_selectors :: "string list" where
  "google_selectors =
     [''text=Continue with Google'', ''text=Sign in with Google'', ''button:has-text(\"Google\")'',
      ''[aria-label*=\"Google\"]'', ''.google-button'', ''#google-signin-button'']"

definition fillEmail :: "login_page \<Rightarrow> string result" where
  "fillEmail p = first_attempt (email_attempt p) email_selectors ''Could not find email input field''"

definition fillPassword :: "login_page \<Rightarrow> string result" where
  "fillPassword p =
     first_attempt (password_attempt p) password_selectors ''Could not find password input field''"

definition clickNextButton :: "login_page \<Rightarrow> nat \<Rightarrow> string result" where
  "clickNextButton p n =
     first_attempt (next_attempt p n) next_selectors ''Could not find Next/Continue button''"

definition check2FARequired :: "login_page \<Rightarrow> bool result" where
  "check2FARequired p = thenR (page_wait p) (Inr (any_visible (twofa_visible p) twofa_indicators))"

definition checkAutomationDetected :: "login_page \<Rightarrow> bool" where
  "checkAutomationDetected p = any_visible (detection_visible p) detection_phrases"

definition checkIfLoggedIn :: "login_page \<Rightarrow> bool" where
  "checkIfLoggedIn p =
     (case thenR (goto_create p) (page_wait p) of
        Inl e \<Rightarrow> False
      | Inr _ \<Rightarrow> str_includes (create_url p) ''/create'' \<or> lyrics_visible p \<or> user_menu_visible p)"

text \<open>
  \<open>waitForManualLogin\<close> throws its own error when the five minutes pass (or when the
  pause after the redirect throws).
\<close>

definition waitForManualLogin :: "login_page \<Rightarrow> login_value result" where
  "waitForManualLogin p =
     catchR (thenR (manual_redirect p) (thenR (page_wait p) (Inr (LoginObject True))))
       (\<lambda>e. Inl (Error ''Manual login timeout - user did not complete login''))"

text \<open>
  The button a \<open>for\<close> loop with \<open>break\<close> leaves in its variable is the first visible one;
  when none is visible the check after the loop fails as well.
\<close>

definition button_found :: "(string \<Rightarrow> bool) \<Rightarrow> string list \<Rightarrow> bool" where
  "button_found vis sels = (find vis sels \<noteq> None)"

text \<open>The scripted entry of the credentials, steps 4 to 11.\<close>

definition automated_entry :: "login_page \<Rightarrow> login_value result" where
  "automated_entry p =
     bindR (catchR (fillEmail p) (\<lambda>e. Inl e)) (\<lambda>_.
     bindR (catchR (thenR (clickNextButton p 1) (page_wait p)) (\<lambda>e. Inl e)) (\<lambda>_.
     if checkAutomationDetected p then waitForManualLogin p
     else
       bindR (catchR (fillPassword p) (\<lambda>e. Inl e)) (\<lambda>_.
       bindR (catchR (thenR (clickNextButton p 2) (page_wait p)) (\<lambda>e. Inl e)) (\<lambda>_.
       bindR (check2FARequired p) (\<lambda>needs2FA.
       if needs2FA then waitForManualLogin p
       else
         thenR (catchR (redirect p)
                  (\<lambda>e. if str_includes (final_url p) ''suno.com'' then Inr ()
                        else Inl (Error ''Failed to redirect to Suno.com after login'')))
        (thenR (page_wait p)
               (Inr (LoginObject True))))))))"

text \<open>
  \<open>loginWithGoogle\<close>: the whole flow sits in one \<open>try\<close>, whose \<open>catch\<close> returns the
  object \<open>{ success: false, error, steps }\<close>.
\<close>

definition loginWithGoogle :: "login_page \<Rightarrow> string \<Rightarrow> string \<Rightarrow> login_value result" where
  "loginWithGoogle p email password =
     catchR
       (thenR (goto_base p)
       (thenR (page_wait p)
       (thenR (if button_found (sign_in_visible p) sign_in_selectors
               then thenR (sign_in_click p) (page_wait p) else Inr ())
       (if \<not> button_found (google_visible p) google_selectors
        then Inl (Error ''Could not find Google login button on the page'')
        else
          thenR (google_click p)
         (thenR (page_wait p)
         (if email \<noteq> [] \<and> password \<noteq> [] then automated_entry p
          else waitForManualLogin p))))))
       (\<lambda>e. Inr (LoginObject False))"

text \<open>\<open>loginWithPassword\<close> rethrows whatever its scripted steps throw.\<close>

definition loginWithPassword :: "login_page \<Rightarrow> login_value result" where
  "loginWithPassword p = catchR (thenR (password_flow p) (Inr LoginTrue)) (\<lambda>e. Inl e)"

text \<open>\<open>AuthManagerPersistent.login\<close>; missing credentials are \<open>null\<close>, here the empty string.\<close>

definition auth_persistent_login :: "login_page \<Rightarrow> login_value result" where
  "auth_persistent_login p =
     (if checkIfLoggedIn p then Inr LoginTrue
      else if authMethod p = ''google'' then
        (case stored_credentials p of
           Inr (Some (email, password)) \<Rightarrow> loginWithGoogle p email password
         | Inr None \<Rightarrow> loginWithGoogle p [] []
         | Inl e \<Rightarrow> loginWithGoogle p [] [])
      else if authMethod p = ''password'' then
        (case config_credentials p of (email, password) \<Rightarrow>
           if email = [] \<or> password = []
           then Inl (Error ''Email and password are required for password authentication'')
           else loginWithPassword p)
      else Inl (Error (''Unknown auth method: '' @ authMethod p)))"

text \<open>
  A login where Google's page shows no email field: the session is not logged in, the
  method is \<open>google\<close>, credentials are stored, the Google button is there, and no
  selector of \<open>fillEmail\<close> finds a visible field.
\<close>

definition no_email_field :: login_page where
  "no_email_field =
     \<lparr>goto_create = Inr (), create_url = ''https://suno.com/'', lyrics_visible = False,
      user_menu_visible = False, authMethod = ''google'',
      stored_credentials = Inr (Some (''user@example.com'', ''secret'')),
      config_credentials = ('''', ''''),
      goto_base = Inr (), page_wait = Inr (),
      sign_in_visible = (\<lambda>sel. sel = ''text=Sign In''), sign_in_click = Inr (),
      google_visible = (\<lambda>sel. sel = ''text=Continue with Google''), google_click = Inr (),
      email_attempt = (\<lambda>sel. Inr False),
      next_attempt = (\<lambda>n sel. Inr False),
      detection_visible = (\<lambda>sel. Inr False),
      password_attempt = (\<lambda>sel. Inr False),
      twofa_visible = (\<lambda>sel. Inr False),
      redirect = Inl (Error ''Timeout 30000ms exceeded''),
      final_url = ''https://accounts.google.com/signin'',
      manual_redirect = Inl (Error ''Timeout 300000ms exceeded''),
      password_flow = Inl (Error ''locator.fill: Timeout'')\<rparr>"

text \<open>The lower components of a run whose login is the one above.\<close>

definition login_env :: "login_page \<Rightarrow> env" where
  "login_env p =
     \<lparr>auth_initialize = Inr (), auth_login = auth_persistent_login p, auth_close = Inr (),
      creator_createSong = (\<lambda>i. Inr ()),
      page_waitForTimeout = (\<lambda>i. Inr ()),
      dm_downloadBothSongs = (\<lambda>i. Inr \<lparr>downloads = [], count = 0\<rparr>),
      preset_usage = (\<lambda>i. None)\<rparr>"

section \<open>\<open>SongCreator\<close>\<close>

text \<open>
  A \<open>textarea\<close> as \<open>fillStyles\<close> sees it: whether it is visible, its \<open>placeholder\<close>
  and \<open>maxlength\<close> attributes (\<open>None\<close> for \<open>null\<close>; the \<open>.catch(() => '')\<close> of the source
  makes a failed read the empty string), and the number of its ancestors that contain
  the text \<open>Advanced Options\<close>. Attribute strings are ASCII.
\<close>

record textarea =
  ta_visible :: bool
  ta_placeholder :: "string option"
  ta_maxlength :: "string option"
  ta_advanced :: nat

text \<open>
  What the creation page answers during one \<open>createSong\<close>: for every selector loop the
  visibility of each selector's first match, and the outcome of each action.
\<close>

record create_page =
  navigate :: "unit result"
  scroll :: "unit result"
  custom_visible :: "string \<Rightarrow> bool"
  custom_click :: "unit result"
  pause :: "unit result"
  lyrics_input_visible :: "string \<Rightarrow> bool"
  lyrics_type :: "unit result"
  style_matches :: "string \<Rightarrow> textarea list result"
  all_textareas :: "textarea list result"
  style_type :: "unit result"
  title_button_visible :: bool
  title_button_click :: "unit result"
  title_visible :: "string \<Rightarrow> bool"
  title_type :: "unit result"
  create_visible :: "string \<Rightarrow> bool"
  create_disabled :: "string \<Rightarrow> bool"
  create_click :: "unit result"
  debug_buttons :: "unit result"
  post_create_url :: string

record song_created =
  created_title :: jsstring
  created_style :: jsstring

definition lower_char :: "char \<Rightarrow> char" where
  "lower_char c =
     (if (65::nat) \<le> of_char c \<and> of_char c \<le> (90::nat) then char_of (of_char c + (32::nat))
      else c)"

definition to_lower :: "string \<Rightarrow> string" where
  "to_lower s = map lower_char s"

definition custom_selectors :: "string list" where
  "custom_selectors =
     [''text=Custom'', ''button:has-text(\"Custom\")'', ''[role=\"tab\"]:has-text(\"Custom\")'',
      ''.custom-mode'']"

definition lyrics_selectors :: "string list" where
  "lyrics_selectors =
     [''textarea[placeholder*=\"lyrics\" i]'', ''textarea[placeholder*=\"Write\" i]'',
      ''textarea[name=\"lyrics\"]'', ''[data-testid=\"lyrics-input\"]'', ''textarea'']"

definition style_selectors :: "string list" where
  "style_selectors =
     [''textarea[placeholder*=\"Hip-hop\" i]'', ''textarea[placeholder*=\"R&B\" i]'',
      ''textarea[placeholder*=\"upbeat\" i]'', ''textarea[maxlength=\"1000\"]'',
      ''textarea:not([placeholder*=\"lyric\" i]):not([placeholder*=\"Write some\" i])'']"

definition title_selectors :: "string list" where
  "title_selectors =
     [''input[placeholder*=\"title\" i]'', ''input[name=\"title\"]'',
      ''[data-testid=\"song-title\"]'', ''button:has-text(\"Add a song title\")'']"

definition create_selectors :: "string list" where
  "create_selectors =
     [''button:has-text(\"Create\")'', ''button:has-text(\"Generate\")'',
      ''button[type=\"submit\"]'', ''[data-testid=\"create-button\"]'', ''.create-button'',
      ''#create-button'']"

text \<open>\<open>selectCustomMode\<close> swallows every error.\<close>

definition selectCustomMode :: "create_page \<Rightarrow> unit result" where
  "selectCustomMode p =
     catchR (if button_found (custom_visible p) custom_selectors then custom_click p else Inr ())
       (\<lambda>e. Inr ())"

definition fillLyrics :: "create_page \<Rightarrow> unit result" where
  "fillLyrics p =
     catchR (if button_found (lyrics_input_visible p) lyrics_selectors then lyrics_type p
             else Inl (Error ''Could not find lyrics input field''))
       (\<lambda>e. Inl e)"

text \<open>The placeholder test that recognises the lyrics field.\<close>

definition lyrics_placeholder :: "textarea \<Rightarrow> bool" where
  "lyrics_placeholder t =
     (case ta_placeholder t of
        None \<Rightarrow> False
      | Some ph \<Rightarrow> ph \<noteq> [] \<and>
          (str_includes (to_lower ph) ''write some lyrics''
           \<or> str_includes (to_lower ph) ''leave empty for instrumental''))"

text \<open>The inner loop of \<open>fillStyles\<close> over the matches of one selector.\<close>

fun pick_style :: "textarea list \<Rightarrow> textarea option" where
  "pick_style [] = None"
| "pick_style (t # ts) =
     (if ta_visible t then
        (if lyrics_placeholder t then pick_style ts
         else if ta_advanced t > 0 then pick_style ts
         else Some t)
      else pick_style ts)"

text \<open>The outer loop: a selector whose \<open>all()\<close> throws is skipped.\<close>

fun search_style :: "(string \<Rightarrow> textarea list result) \<Rightarrow> string list \<Rightarrow> textarea option" where
  "search_style m [] = None"
| "search_style m (sel # sels) =
     (case m sel of
        Inl e \<Rightarrow> search_style m sels
      | Inr tas \<Rightarrow> (case pick_style tas of Some t \<Rightarrow> Some t | None \<Rightarrow> search_style m sels))"

text \<open>
  The fallback over all textareas: \<open>maxlength === '1000' && !placeholder.toLowerCase().includes('lyric')\<close>,
  where a \<open>null\<close> placeholder makes \<open>toLowerCase\<close> throw a \<open>TypeError\<close>.
\<close>

fun pick_fallback :: "textarea list \<Rightarrow> textarea option result" where
  "pick_fallback [] = Inr None"
| "pick_fallback (t # ts) =
     (if ta_visible t \<and> ta_maxlength t = Some ''1000'' then
        (case ta_placeholder t of
           None \<Rightarrow> Inl (Error ''Cannot read properties of null (reading toLowerCase)'')
         | Some ph \<Rightarrow>
             if \<not> str_includes (to_lower ph) ''lyric'' then Inr (Some t) else pick_fallback ts)
      else pick_fallback ts)"

definition find_style_input :: "create_page \<Rightarrow> textarea option result" where
  "find_style_input p =
     (case search_style (style_matches p) style_selectors of
        Some t \<Rightarrow> Inr (Some t)
      | None \<Rightarrow> bindR (all_textareas p) pick_fallback)"

text \<open>\<open>fillStyles\<close>: its \<open>catch\<close> takes a screenshot and rethrows.\<close>

definition fillStyles :: "create_page \<Rightarrow> unit result" where
  "fillStyles p =
     catchR
       (thenR (pause p)
       (bindR (find_style_input p) (\<lambda>styleInput.
          case styleInput of
            Some t \<Rightarrow>
              if ta_visible t then style_type p
              else Inl (Error ''Could not find style input field - Check screenshot in downloads/debug/'')
          | None \<Rightarrow>
              Inl (Error ''Could not find style input field - Check screenshot in downloads/debug/''))))
       (\<lambda>e. Inl e)"

text \<open>\<open>addSongTitle\<close>: its \<open>catch\<close> only warns, "title is optional".\<close>

definition addSongTitle :: "create_page \<Rightarrow> unit result" where
  "addSongTitle p =
     catchR
       (thenR (if title_button_visible p then title_button_click p else Inr ())
              (if button_found (title_visible p) title_selectors then title_type p else Inr ()))
       (\<lambda>e. Inr ())"

text \<open>
  \<open>checkForPostCreateIssues\<close> throws on an error route only; the errors of its CAPTCHA
  loop are caught inside the loop.
\<close>

definition checkForPostCreateIssues :: "create_page \<Rightarrow> unit result" where
  "checkForPostCreateIssues p =
     (if str_includes (post_create_url p) ''404'' \<or> str_includes (post_create_url p) ''error''
      then Inl (Error (''Rate limited: '' @ post_create_url p))
      else Inr ())"

definition create_button_found :: "create_page \<Rightarrow> bool" where
  "create_button_found p =
     (find (\<lambda>sel. create_visible p sel \<and> \<not> create_disabled p sel) create_selectors \<noteq> None)"

definition clickCreate :: "create_page \<Rightarrow> unit result" where
  "clickCreate p =
     catchR
       (thenR (pause p)
          (if create_button_found p then
             thenR (pause p)
            (thenR (create_click p)
            (thenR (pause p)
                   (checkForPostCreateIssues p)))
           else
             thenR (debug_buttons p)
               (Inl (Error ''Could not find enabled Create button - Check screenshot in downloads/debug/''))))
       (\<lambda>e. Inl e)"

text \<open>\<open>lyrics && lyrics.trim()\<close>: some character of the lyrics is not white space.\<close>

definition has_text :: "jsstring \<Rightarrow> bool" where
  "has_text s = (\<not> list_all is_space s)"

text \<open>\<open>title || 'Untitled'\<close>\<close>

definition title_or_untitled :: "jsstring \<Rightarrow> jsstring" where
  "title_or_untitled title =
     (if title = [] then [0x55, 0x6E, 0x74, 0x69, 0x74, 0x6C, 0x65, 0x64] else title)"

definition creator_createSong_page ::
  "create_page \<Rightarrow> jsstring \<Rightarrow> jsstring \<Rightarrow> jsstring \<Rightarrow> song_created result" where
  "creator_createSong_page p title lyrics style =
     catchR
       (thenR (thenR (navigate p) (pause p))
       (thenR (scroll p)
       (thenR (selectCustomMode p)
       (thenR (pause p)
       (thenR (if has_text lyrics then thenR (fillLyrics p) (pause p) else Inr ())
       (thenR (fillStyles p)
       (thenR (if title \<noteq> [] then thenR (pause p) (addSongTitle p) else Inr ())
       (thenR (scroll p)
       (thenR (clickCreate p)
              (Inr \<lparr>created_title = title_or_untitled title, created_style = style\<rparr>))))))))))
       (\<lambda>e. Inl e)"

text \<open>
  A creation page in working order that shows no title field, and the same page without
  a style field.
\<close>

definition style_field :: textarea where
  "style_field = \<lparr>ta_visible = True, ta_placeholder = Some ''Hip-hop, R&B, upbeat'',
                  ta_maxlength = Some ''1000'', ta_advanced = 0\<rparr>"

definition lyrics_field :: textarea where
  "lyrics_field = \<lparr>ta_visible = True, ta_placeholder = Some ''Write some lyrics'',
                   ta_maxlength = None, ta_advanced = 0\<rparr>"

definition page_without_title :: create_page where
  "page_without_title =
     \<lparr>navigate = Inr (), scroll = Inr (), custom_visible = (\<lambda>sel. False), custom_click = Inr (),
      pause = Inr (), lyrics_input_visible = (\<lambda>sel. sel = ''textarea''), lyrics_type = Inr (),
      style_matches =
        (\<lambda>sel. if sel = ''textarea[placeholder*=\"Hip-hop\" i]'' then Inr [style_field]
               else Inr []),
      all_textareas = Inr [lyrics_field, style_field], style_type = Inr (),
      title_button_visible = False, title_button_click = Inr (),
      title_visible = (\<lambda>sel. False), title_type = Inr (),
      create_visible = (\<lambda>sel. sel = ''button:has-text(\"Create\")''),
      create_disabled = (\<lambda>sel. False), create_click = Inr (), debug_buttons = Inr (),
      post_create_url = ''https://suno.com/create''\<rparr>"

definition page_without_style :: create_page where
  "page_without_style =
     page_without_title\<lparr>style_matches := (\<lambda>sel. Inr []), all_textareas := Inr [lyrics_field]\<rparr>"

definition test_title :: jsstring where
  "test_title = [0x54, 0x65, 0x73, 0x74]"

definition test_style :: jsstring where
  "test_style = [0x61, 0x6D, 0x62, 0x69, 0x65, 0x6E, 0x74]"

section \<open>\<open>DownloadManager\<close>: the downloads\<close>

text \<open>
  What the page and the file system answer during one \<open>downloadSingleSong\<close>. \<open>goto_me\<close>
  is the navigation to \<open>/me\<close> with the pause after it, \<open>reveal\<close> the scroll into view
  and the hover. \<open>rows\<close> holds, for every song row of the DOM in order, whether it is
  visible; \<open>menu_buttons sel\<close> the same for the buttons a selector matches inside the
  chosen row. \<open>stat\<close> is the size \<open>fs.stat\<close> reports for the saved file.
\<close>

record song_page =
  goto_me :: "unit result"
  rows :: "bool list result"
  container_visible :: bool
  scroll_reset :: "unit result"
  recheck_visible :: bool
  reveal :: "unit result"
  menu_buttons :: "string \<Rightarrow> bool list result"
  wait_more :: "unit result"
  more_button_visible :: bool
  debug_listing :: "unit result"
  menu_click :: "unit result"
  root_menu :: "unit result"
  ensure_dir :: "unit result"
  focus_download :: "unit result"
  press_enter :: "unit result"
  sub_menu :: "unit result"
  settle :: "unit result"
  attempt_enter :: "unit result"
  attempt_click :: "unit result"
  save_as :: "unit result"
  stat :: "nat result"
  timestamp :: string
  downloadPath :: string

text \<open>
  The selectors of the three-dot button, in the order of the source; the three selectors
  whose text is a non-ASCII ellipsis or bullet sign are written in words.
\<close>

definition menu_button_selectors :: "string list" where
  "menu_button_selectors =
     [''button[aria-label=\"More Options\"]'', ''button[aria-label=\"More Actions\"]'',
      ''button[aria-label*=\"more\" i]'', ''button[aria-label*=\"options\" i]'',
      ''button:has-text(\"vertical ellipsis\")'', ''button[aria-label*=\"menu\" i]'',
      ''button:has-text(\"horizontal ellipsis\")'', ''button:has-text(\"...\")'',
      ''button:has-text(\"bullets\")'', ''[data-testid=\"song-menu\"]'', ''button.more-options'',
      ''button[class*=\"menu\"]'', ''button:right-of(button:has-text(\"Publish\"))'',
      ''svg[class*=\"dots\"] >> xpath=..'', ''svg[class*=\"ellipsis\"] >> xpath=..'']"

text \<open>
  The search for the three-dot button: the first selector with a visible match. The call
  of \<open>all()\<close> is not guarded, so its error leaves the loop.
\<close>

fun find_menu_button :: "(string \<Rightarrow> bool list result) \<Rightarrow> string list \<Rightarrow> bool result" where
  "find_menu_button m [] = Inr False"
| "find_menu_button m (sel # sels) =
     (case m sel of
        Inl e \<Rightarrow> Inl e
      | Inr vs \<Rightarrow> if list_ex (\<lambda>v. v) vs then Inr True else find_menu_button m sels)"

text \<open>A number in decimal, as a template literal prints it.\<close>

function decimal :: "nat \<Rightarrow> string" where
  "decimal n =
     (if n < 10 then [char_of (48 + n)] else decimal (n div 10) @ [char_of (48 + n mod 10)])"
  by pat_completeness auto
termination
  by (relation "measure id") auto

text \<open>\<open>${songTitle || 'suno-song'}-v${version}-${timestamp}.mp3\<close>\<close>

definition download_filename :: "song_page \<Rightarrow> string \<Rightarrow> nat \<Rightarrow> string" where
  "download_filename d songTitle version =
     (if songTitle = [] then ''suno-song'' else songTitle)
       @ ''-v'' @ decimal version @ ''-'' @ timestamp d @ ''.mp3''"

text \<open>
  The two attempts to start the download: the Enter key first, an explicit click when
  that throws; when both throw, a new error is thrown.
\<close>

definition trigger_download :: "song_page \<Rightarrow> unit result" where
  "trigger_download d =
     catchR (attempt_enter d)
       (\<lambda>e. catchR (attempt_click d)
          (\<lambda>e2. Inl (Error (''Failed to download: '' @ message e2))))"

text \<open>Saving the file and checking that it is not empty.\<close>

definition save_and_verify :: "song_page \<Rightarrow> string \<Rightarrow> nat \<Rightarrow> download result" where
  "save_and_verify d songTitle version =
     thenR (save_as d)
    (bindR (stat d) (\<lambda>sz.
       if sz = 0 then Inl (Error ''Downloaded file is empty'')
       else Inr \<lparr>path = downloadPath d @ ''/'' @ download_filename d songTitle version,
                 size_bytes = sz,
                 filename = download_filename d songTitle version\<rparr>))"

definition open_menus :: "song_page \<Rightarrow> unit result" where
  "open_menus d =
     thenR (menu_click d)
    (thenR (root_menu d)
    (thenR (ensure_dir d)
    (thenR (focus_download d)
    (thenR (press_enter d)
    (thenR (sub_menu d)
           (settle d))))))"

text \<open>Finding the row with index \<open>songIndex\<close> among the visible rows and its menu button.\<close>

definition locate_menu_button :: "song_page \<Rightarrow> nat \<Rightarrow> unit result" where
  "locate_menu_button d songIndex =
     thenR (goto_me d)
    (bindR (rows d) (\<lambda>allSongsRaw.
       if length (filter (\<lambda>v. v) allSongsRaw) \<le> songIndex
       then Inl (Error (''Song at index '' @ decimal songIndex @ '' not found''))
       else
         thenR (if \<not> container_visible d
                then thenR (scroll_reset d)
                       (if \<not> recheck_visible d
                        then Inl (Error (''Song container at index '' @ decimal songIndex
                                   @ '' is still not visible after scroll reset''))
                        else Inr ())
                else Inr ())
        (thenR (reveal d)
        (bindR (find_menu_button (menu_buttons d) menu_button_selectors) (\<lambda>found.
         bindR (if found then Inr True
                else thenR (wait_more d) (Inr (more_button_visible d))) (\<lambda>menuButton.
           if \<not> menuButton
           then thenR (debug_listing d) (Inl (Error ''Could not find song menu button''))
           else Inr ()))))))"

text \<open>\<open>downloadSingleSong\<close>: its \<open>catch\<close> logs and rethrows.\<close>

definition downloadSingleSong :: "song_page \<Rightarrow> string \<Rightarrow> nat \<Rightarrow> nat \<Rightarrow> download result" where
  "downloadSingleSong d songTitle version songIndex =
     catchR
       (thenR (locate_menu_button d songIndex)
       (thenR (open_menus d)
       (thenR (trigger_download d)
              (save_and_verify d songTitle version))))
       (\<lambda>e. Inl e)"

text \<open>
  \<open>downloadBothSongs\<close>: version 1 from the row 0, a pause of three seconds, version 2
  from the row 1. \<open>d1\<close> and \<open>d2\<close> are the answers during the first and the second download.
\<close>

definition downloadBothSongs ::
  "song_page \<Rightarrow> unit result \<Rightarrow> song_page \<Rightarrow> string \<Rightarrow> download_result result" where
  "downloadBothSongs d1 wait d2 songTitle =
     catchR
       (bindR (downloadSingleSong d1 songTitle 1 0) (\<lambda>download1.
        thenR wait
       (bindR (downloadSingleSong d2 songTitle 2 1) (\<lambda>download2.
        Inr \<lparr>downloads = [download1, download2], count = length [download1, download2]\<rparr>))))
       (\<lambda>e. Inl e)"

text \<open>
  A variant is downloadable at a row when the row is among the visible ones, its menu
  button is found, and every step up to the saved file succeeds.
\<close>

definition downloadable :: "song_page \<Rightarrow> nat \<Rightarrow> bool" where
  "downloadable d songIndex \<longleftrightarrow>
     locate_menu_button d songIndex = Inr () \<and> open_menus d = Inr ()
     \<and> trigger_download d = Inr () \<and> save_as d = Inr ()"

text \<open>A listing with two visible rows whose downloads work, saving \<open>n\<close> bytes.\<close>

definition working_page :: "nat \<Rightarrow> song_page" where
  "working_page n =
     \<lparr>goto_me = Inr (), rows = Inr [True, False, True], container_visible = True,
      scroll_reset = Inr (), recheck_visible = True, reveal = Inr (),
      menu_buttons = (\<lambda>sel. if sel = ''button[aria-label=\"More Options\"]'' then Inr [True]
                            else Inr []),
      wait_more = Inr (), more_button_visible = False, debug_listing = Inr (),
      menu_click = Inr (), root_menu = Inr (), ensure_dir = Inr (), focus_download = Inr (),
      press_enter = Inr (), sub_menu = Inr (), settle = Inr (),
      attempt_enter = Inl (Error ''Timeout 5000ms exceeded''), attempt_click = Inr (),
      save_as = Inr (), stat = Inr n,
      timestamp = ''2025-01-01T00-00-00'', downloadPath = ''downloads''\<rparr>"

section \<open>\<open>DownloadManager\<close>: the status checks\<close>




































section \<open>\<open>DownloadManager\<close>: waiting for completion\<close>


















section \<open>Rules for the combinators\<close>

lemmas prog_defs =
  returnP_def throwP_def bindP_def thenP_def try_catch_def emit_def invoke_def modify_def

lemmas result_defs = bindR_def thenR_def catchR_def

lemma thenR_Inl: "m = Inl e \<Longrightarrow> thenR m n = Inl e"
  by (simp add: result_defs)

lemma thenR_fails_later: "\<exists>e. n = Inl e \<Longrightarrow> \<exists>e. thenR m n = Inl e"
  by (cases m) (auto simp: result_defs)

lemma bindR_Inr: "bindR m f = Inr y \<longleftrightarrow> (\<exists>x. m = Inr x \<and> f x = Inr y)"
  by (cases m) (simp_all add: bindR_def)

lemma thenR_Inr: "thenR m n = Inr y \<longleftrightarrow> (\<exists>x. m = Inr x) \<and> n = Inr y"
  by (cases m) (simp_all add: thenR_def bindR_def)

lemma catchR_rethrow: "catchR m (\<lambda>e. Inl e) = m"
  by (cases m) (simp_all add: catchR_def)

section \<open>Properties of the utilities\<close>

lemma hyphen_clean: "\<not> invalid_char 0x2D" "\<not> is_space 0x2D"
  by (simp_all add: invalid_char_def is_space_def)

lemma underscore_clean: "\<not> invalid_char 0x5F" "\<not> is_space 0x5F"
  by (simp_all add: invalid_char_def is_space_def)

lemma replace_invalid_clean: "c \<in> set (replace_invalid s) \<Longrightarrow> \<not> invalid_char c"
  by (auto simp: replace_invalid_def hyphen_clean)

lemma replace_spaces_no_space: "c \<in> set (replace_spaces s) \<Longrightarrow> \<not> is_space c"
proof (induction s arbitrary: c rule: replace_spaces.induct)
  case 1
  then show ?case by simp
next
  case (2 d ds)
  show ?case
  proof (cases "is_space d")
    case True
    with "2.prems" have "c = 0x5F \<or> c \<in> set (replace_spaces (dropWhile is_space ds))"
      by simp
    then show ?thesis using "2.IH"(1) [OF True] underscore_clean(2) by blast
  next
    case False
    with "2.prems" have "c = d \<or> c \<in> set (replace_spaces ds)" by simp
    then show ?thesis using "2.IH"(2) [OF False] False by blast
  qed
qed

lemma replace_spaces_subset:
  "c \<in> set (replace_spaces s) \<Longrightarrow> c = 0x5F \<or> c \<in> set s"
proof (induction s arbitrary: c rule: replace_spaces.induct)
  case 1
  then show ?case by simp
next
  case (2 d ds)
  show ?case
  proof (cases "is_space d")
    case True
    with "2.prems" have "c = 0x5F \<or> c \<in> set (replace_spaces (dropWhile is_space ds))"
      by simp
    then have "c = 0x5F \<or> c \<in> set (dropWhile is_space ds)"
      using "2.IH"(1) [OF True] by blast
    then have "c = 0x5F \<or> c \<in> set ds" by (blast dest: set_dropWhileD)
    then show ?thesis by (simp only: set_simps insert_iff) blast
  next
    case False
    with "2.prems" have "c = d \<or> c \<in> set (replace_spaces ds)" by simp
    then have "c = d \<or> c = 0x5F \<or> c \<in> set ds"
      using "2.IH"(2) [OF False] by blast
    then show ?thesis by (simp only: set_simps insert_iff) blast
  qed
qed

lemma replace_invalid_id: "\<forall>c \<in> set s. \<not> invalid_char c \<Longrightarrow> replace_invalid s = s"
  by (induction s) (simp_all add: replace_invalid_def)

lemma replace_spaces_id: "\<forall>c \<in> set s. \<not> is_space c \<Longrightarrow> replace_spaces s = s"
  by (induction s) simp_all

lemma sanitize_clean:
  assumes "c \<in> set (sanitizeFilename s)"
  shows "\<not> invalid_char c \<and> \<not> is_space c"
proof -
  from assms have m: "c \<in> set (replace_spaces (replace_invalid s))"
    unfolding sanitizeFilename_def by (rule in_set_takeD)
  from m have "\<not> is_space c" by (rule replace_spaces_no_space)
  moreover from m have "c = 0x5F \<or> c \<in> set (replace_invalid s)"
    by (rule replace_spaces_subset)
  then have "\<not> invalid_char c"
    using underscore_clean(1) replace_invalid_clean by blast
  ultimately show ?thesis by simp
qed

lemma sanitize_length: "length (sanitizeFilename s) \<le> 200"
  by (simp add: sanitizeFilename_def)

text \<open>
  Claim C8. \<open>sanitizeFilename\<close> is idempotent, and its output is a fixed point: it holds
  none of the characters \<open><>:"/\|?*\<close>, no white space, and at most 200 code units.
\<close>

theorem sanitizeFilename_idempotent:
  "sanitizeFilename (sanitizeFilename s) = sanitizeFilename s
   \<and> (\<forall>c \<in> set (sanitizeFilename s). \<not> invalid_char c \<and> \<not> is_space c)
   \<and> length (sanitizeFilename s) \<le> 200"
proof -
  let ?t = "sanitizeFilename s"
  have clean: "\<forall>c \<in> set ?t. \<not> invalid_char c \<and> \<not> is_space c"
    using sanitize_clean by blast
  have "replace_invalid ?t = ?t" using clean by (simp add: replace_invalid_id)
  moreover have "replace_spaces ?t = ?t" using clean by (simp add: replace_spaces_id)
  moreover have "take 200 ?t = ?t" using sanitize_length by simp
  ultimately have "sanitizeFilename ?t = ?t"
    by (simp add: sanitizeFilename_def)
  with clean sanitize_length show ?thesis by blast
qed

text \<open>Claim C8 at the title \<open>a b:c\<close>, which becomes \<open>a_b-c\<close>.\<close>

theorem sanitizeFilename_idempotent_witness:
  "sanitizeFilename [0x61, 0x20, 0x20, 0x62, 0x3A, 0x63] = [0x61, 0x5F, 0x62, 0x2D, 0x63]
   \<and> sanitizeFilename (sanitizeFilename [0x61, 0x20, 0x20, 0x62, 0x3A, 0x63])
       = sanitizeFilename [0x61, 0x20, 0x20, 0x62, 0x3A, 0x63]
   \<and> 0x5F \<in> set (sanitizeFilename [0x61, 0x20, 0x20, 0x62, 0x3A, 0x63])
   \<and> \<not> invalid_char 0x5F \<and> \<not> is_space 0x5F
   \<and> length (sanitizeFilename [0x61, 0x20, 0x20, 0x62, 0x3A, 0x63]) \<le> 200"
proof -
  have v: "sanitizeFilename [0x61, 0x20, 0x20, 0x62, 0x3A, 0x63] = [0x61, 0x5F, 0x62, 0x2D, 0x63]"
    by (simp add: sanitizeFilename_def replace_invalid_def invalid_char_def is_space_def)
  have m: "0x5F \<in> set (sanitizeFilename [0x61, 0x20, 0x20, 0x62, 0x3A, 0x63])"
    by (simp only: v set_simps insert_iff) blast
  from sanitizeFilename_idempotent [of "[0x61, 0x20, 0x20, 0x62, 0x3A, 0x63]"] m
  have "\<not> invalid_char 0x5F \<and> \<not> is_space 0x5F" by blast
  with v m sanitizeFilename_idempotent [of "[0x61, 0x20, 0x20, 0x62, 0x3A, 0x63]"]
  show ?thesis by blast
qed



section \<open>Session release\<close>

lemma quiet_returnP: "quiet (returnP x)"
  by (simp add: quiet_def returnP_def)

lemma quiet_throwP: "quiet (throwP e)"
  by (simp add: quiet_def throwP_def)

lemma quiet_emit: "ev \<noteq> Invoke BotClose 0 \<Longrightarrow> quiet (emit ev)"
  by (simp add: quiet_def emit_def close_count_def)

lemma quiet_invoke: "h \<noteq> BotClose \<Longrightarrow> quiet (invoke h i r)"
  by (simp add: quiet_def invoke_def close_count_def)

lemma quiet_modify:
  "(\<And>s. trace (f s) = trace s \<and> botCreated (f s) = botCreated s) \<Longrightarrow> quiet (modify f)"
  by (simp add: quiet_def modify_def)

lemma quiet_bindP:
  assumes "quiet m" and "\<And>x. quiet (f x)"
  shows "quiet (bindP m f)"
  unfolding quiet_def
proof
  fix s
  obtain r s1 where ms: "m s = (r, s1)" by (cases "m s")
  from assms(1) ms have a: "close_count (trace s1) = close_count (trace s)"
    "botCreated s1 = botCreated s"
    unfolding quiet_def by (metis snd_conv)+
  show "close_count (trace (snd (bindP m f s))) = close_count (trace s)
      \<and> botCreated (snd (bindP m f s)) = botCreated s"
  proof (cases r)
    case (Inl e)
    with ms a show ?thesis by (simp add: bindP_def)
  next
    case (Inr x)
    from assms(2) [of x] have "close_count (trace (snd (f x s1))) = close_count (trace s1)"
      "botCreated (snd (f x s1)) = botCreated s1"
      unfolding quiet_def by blast+
    with Inr ms a show ?thesis by (simp add: bindP_def)
  qed
qed

lemma quiet_thenP: "quiet m \<Longrightarrow> quiet n \<Longrightarrow> quiet (thenP m n)"
  by (simp add: thenP_def quiet_bindP)

lemma quiet_try_catch:
  assumes "quiet m" and "\<And>e. quiet (h e)"
  shows "quiet (try_catch m h)"
  unfolding quiet_def
proof
  fix s
  obtain r s1 where ms: "m s = (r, s1)" by (cases "m s")
  from assms(1) ms have a: "close_count (trace s1) = close_count (trace s)"
    "botCreated s1 = botCreated s"
    unfolding quiet_def by (metis snd_conv)+
  show "close_count (trace (snd (try_catch m h s))) = close_count (trace s)
      \<and> botCreated (snd (try_catch m h s)) = botCreated s"
  proof (cases r)
    case (Inl e)
    from assms(2) [of e] have "close_count (trace (snd (h e s1))) = close_count (trace s1)"
      "botCreated (snd (h e s1)) = botCreated s1"
      unfolding quiet_def by blast+
    with Inl ms a show ?thesis by (simp add: try_catch_def)
  next
    case (Inr x)
    with ms a show ?thesis by (simp add: try_catch_def)
  qed
qed

lemma quiet_if: "quiet a \<Longrightarrow> quiet b \<Longrightarrow> quiet (\<lambda>s. if c s then a s else b s)"
  by (simp add: quiet_def)

lemmas quiet_intros =
  quiet_returnP quiet_throwP quiet_emit quiet_invoke quiet_modify quiet_bindP quiet_thenP
  quiet_try_catch quiet_if

lemma quiet_bot_initialize: "quiet (bot_initialize ev)"
  unfolding bot_initialize_def by (intro quiet_intros) simp_all

lemma quiet_bot_login: "quiet (bot_login ev)"
  unfolding bot_login_def by (intro quiet_intros) simp_all

lemma quiet_bot_createSong: "quiet (bot_createSong ev i)"
  unfolding bot_createSong_def by (intro quiet_intros) simp_all

lemma quiet_bot_waitForCompletion: "quiet (bot_waitForCompletion ev i)"
  unfolding bot_waitForCompletion_def by (intro quiet_intros) simp_all

lemma quiet_bot_downloadBothSongs: "quiet (bot_downloadBothSongs ev i)"
  unfolding bot_downloadBothSongs_def by (intro quiet_intros) simp_all

lemma quiet_round_body: "quiet (round_body ev r)"
  unfolding round_body_def
  by (intro quiet_intros quiet_bot_createSong quiet_bot_downloadBothSongs) simp_all

lemma quiet_rounds_from: "quiet (rounds_from ev r n acc)"
proof (induction n arbitrary: r acc)
  case 0
  show ?case by (simp add: quiet_returnP)
next
  case (Suc n)
  show ?case by (simp add: quiet_bindP quiet_round_body Suc)
qed

lemma quiet_automateFullProcess: "quiet (automateFullProcess ev n)"
  unfolding automateFullProcess_def
  by (intro quiet_intros quiet_bot_initialize quiet_bot_login quiet_rounds_from) simp_all

lemma quiet_batch_job: "quiet (batch_job ev n i)"
proof -
  have p: "quiet (case preset_usage ev i of None \<Rightarrow> returnP () | Some r \<Rightarrow> invoke IncrementUsage i r)"
    by (cases "preset_usage ev i") (simp_all add: quiet_returnP quiet_invoke)
  have w: "quiet (if i + 1 < n then thenP (emit (Status ''batch_waiting'')) (emit (Sleep 10000))
                  else returnP ())"
    by (simp add: quiet_thenP quiet_emit quiet_returnP)
  show ?thesis
    unfolding batch_job_def
    by (intro quiet_try_catch quiet_thenP p w quiet_bot_createSong quiet_bot_waitForCompletion
          quiet_bot_downloadBothSongs quiet_emit quiet_modify) simp_all
qed

lemma quiet_batch_from: "quiet (batch_from ev N i n)"
proof (induction n arbitrary: i)
  case 0
  show ?case by (simp add: quiet_returnP)
next
  case (Suc n)
  show ?case by (simp add: quiet_thenP quiet_batch_job Suc)
qed

lemma bot_close_once:
  "close_count (trace (snd (bot_close ev s))) = close_count (trace s) + 1"
  by (simp add: bot_close_def prog_defs close_count_def)

lemma snd_try_finally: "snd (try_finally m f s) = snd (f (snd (m s)))"
  by (simp add: try_finally_def split: prod.splits sum.splits)

lemma create_song_run_closes:
  "close_count (trace (snd (create_song_run ev rounds s))) = close_count (trace s) + 1"
proof -
  let ?s1 = "s\<lparr>isProcessing := True, botCreated := True, currentBot := True\<rparr>"
  let ?body = "try_catch
             (thenP (automateFullProcess ev rounds) (emit (Status ''complete'')))
             (\<lambda>e. thenP (emit (Status ''error'')) (emit (Sleep 30000)))"
  let ?fin = "thenP (bot_close ev)
                 (modify (\<lambda>s. s\<lparr>currentBot := False, isProcessing := False\<rparr>))"
  have qb: "quiet ?body"
    by (intro quiet_try_catch quiet_thenP quiet_automateFullProcess quiet_emit) simp_all
  have fin: "close_count (trace (snd (?fin t))) = close_count (trace t) + 1" for t
    using bot_close_once [of ev t]
    by (cases "bot_close ev t") (auto simp: thenP_def bindP_def modify_def split: sum.splits)
  have "snd (create_song_run ev rounds s) = snd (?fin (snd (?body ?s1)))"
    by (simp add: create_song_run_def thenP_def bindP_def modify_def snd_try_finally)
  moreover have "close_count (trace (snd (?body ?s1))) = close_count (trace ?s1)"
    using qb unfolding quiet_def by blast
  ultimately show ?thesis using fin by simp
qed

lemma batch_run_closes:
  "close_count (trace (snd (batch_run ev n s))) = close_count (trace s) + 1"
proof -
  let ?s1 = "s\<lparr>isProcessing := True, successCount := 0, failCount := 0, botCreated := False\<rparr>"
  let ?rest = "thenP (bot_initialize ev) (thenP (bot_login ev) (batch_from ev n 0 n))"
  let ?inner = "thenP (modify (\<lambda>s. s\<lparr>botCreated := True, currentBot := True\<rparr>)) ?rest"
  let ?body = "try_catch ?inner (\<lambda>e. emit (Status ''batch_error''))"
  let ?fin = "thenP (\<lambda>s. if botCreated s
                       then thenP (bot_close ev) (modify (\<lambda>s. s\<lparr>currentBot := False\<rparr>)) s
                       else returnP () s)
          (thenP (modify (\<lambda>s. s\<lparr>isProcessing := False\<rparr>))
                 (\<lambda>s. emit (BatchComplete n (successCount s) (failCount s)) s))"
  let ?s2 = "?s1\<lparr>botCreated := True, currentBot := True\<rparr>"
  have qr: "quiet (try_catch ?rest (\<lambda>e. emit (Status ''batch_error'')))"
    by (intro quiet_try_catch quiet_thenP quiet_bot_initialize quiet_bot_login
          quiet_batch_from quiet_emit) simp_all
  have body: "?body ?s1 = try_catch ?rest (\<lambda>e. emit (Status ''batch_error'')) ?s2"
    by (simp add: try_catch_def thenP_def bindP_def modify_def)
  from qr have b: "close_count (trace (snd (?body ?s1))) = close_count (trace s)"
    "botCreated (snd (?body ?s1))"
    unfolding body quiet_def by simp_all
  have fin: "botCreated t \<Longrightarrow> close_count (trace (snd (?fin t))) = close_count (trace t) + 1" for t
    using bot_close_once [of ev t]
    by (cases "bot_close ev t")
       (auto simp: thenP_def bindP_def modify_def emit_def close_count_def split: sum.splits)
  have "snd (batch_run ev n s) = snd (?fin (snd (?body ?s1)))"
    by (simp add: batch_run_def thenP_def bindP_def modify_def snd_try_finally)
  with fin [OF b(2)] b(1) show ?thesis by simp
qed

text \<open>
  Claim C4. On every exit path of a single-job run and of a batch run, whatever the
  outcome of initialisation, login, submit, wait and download, \<open>bot.close()\<close> is
  invoked exactly once more than before the run: once, from a fresh server.
\<close>

theorem session_released_once:
  "close_count (trace (snd (create_song_run ev rounds initial))) = 1
   \<and> close_count (trace (snd (batch_run ev n initial))) = 1"
proof -
  have "close_count (trace initial) = 0"
    by (simp add: initial_def close_count_def)
  then show ?thesis
    by (simp only: create_song_run_closes batch_run_closes) simp
qed

section \<open>Failure isolation in the batch loop\<close>

text \<open>A job whose steps all succeed is counted as a success.\<close>

lemma batch_job_success:
  assumes "preset_usage ev i = None \<or> preset_usage ev i = Some (Inr ())"
    and "creator_createSong ev i = Inr ()"
    and "page_waitForTimeout ev i = Inr ()"
    and "dm_downloadBothSongs ev i = Inr d"
  shows "job_effect i 1 0 (batch_job ev N i s) s"
  using assms
  by (auto simp: job_effect_def batch_job_def bot_createSong_def bot_waitForCompletion_def
        bot_downloadBothSongs_def prog_defs)

text \<open>A job whose creation step throws is counted as a failure, and the loop goes on.\<close>

lemma batch_job_failure:
  assumes "preset_usage ev i = None \<or> preset_usage ev i = Some (Inr ())"
    and "creator_createSong ev i = Inl e"
  shows "job_effect i 0 1 (batch_job ev N i s) s"
  using assms
  by (auto simp: job_effect_def batch_job_def bot_createSong_def prog_defs)

lemma batch_from_one_failure:
  assumes "one_failure ev N k" and "i + n = N"
  shows "fst (batch_from ev N i n s) = Inr ()
       \<and> successCount (snd (batch_from ev N i n s))
           = successCount s + (n - (if i \<le> k \<and> k < N then 1 else 0))
       \<and> failCount (snd (batch_from ev N i n s))
           = failCount s + (if i \<le> k \<and> k < N then 1 else 0)
       \<and> hasAuthManager (snd (batch_from ev N i n s)) = hasAuthManager s
       \<and> botCreated (snd (batch_from ev N i n s)) = botCreated s
       \<and> (\<forall>j. i \<le> j \<and> j < N \<longrightarrow>
             Invoke CreatorCreateSong j \<in> set (trace (snd (batch_from ev N i n s))))
       \<and> set (trace s) \<subseteq> set (trace (snd (batch_from ev N i n s)))
       \<and> filter is_batch_complete (trace (snd (batch_from ev N i n s)))
           = filter is_batch_complete (trace s)"
  using assms(2)
proof (induction n arbitrary: i s)
  case 0
  then show ?case by (auto simp: returnP_def)
next
  case (Suc n)
  from Suc.prems have iN: "i < N" and next_eq: "Suc i + n = N" by simp_all
  from assms(1) iN have pre: "preset_usage ev i = None \<or> preset_usage ev i = Some (Inr ())"
    unfolding one_failure_def by blast
  from assms(1) iN have cs: "if i = k then \<exists>e. creator_createSong ev i = Inl e
      else creator_createSong ev i = Inr () \<and> page_waitForTimeout ev i = Inr ()
         \<and> (\<exists>d. dm_downloadBothSongs ev i = Inr d)"
    unfolding one_failure_def by blast
  obtain ds df :: nat where dsdf: "ds = (if i = k then 0 else 1)" "df = (if i = k then 1 else 0)"
    by simp
  have je: "job_effect i ds df (batch_job ev N i s) s"
  proof (cases "i = k")
    case True
    from cs True have "\<exists>e. creator_createSong ev i = Inl e" by (simp only: if_True)
    then obtain e where "creator_createSong ev i = Inl e" by blast
    from batch_job_failure [OF pre this] show ?thesis using True dsdf by simp
  next
    case False
    from cs False have "creator_createSong ev i = Inr () \<and> page_waitForTimeout ev i = Inr ()
         \<and> (\<exists>d. dm_downloadBothSongs ev i = Inr d)" by (simp only: if_False)
    then obtain d where ok: "creator_createSong ev i = Inr ()"
      "page_waitForTimeout ev i = Inr ()" "dm_downloadBothSongs ev i = Inr d" by blast
    from batch_job_success [OF pre ok] show ?thesis using False dsdf by simp
  qed
  obtain s1 where j: "batch_job ev N i s = (Inr (), s1)"
    using je unfolding job_effect_def by (cases "batch_job ev N i s") auto
  from je j have e1: "successCount s1 = successCount s + ds" "failCount s1 = failCount s + df"
    "hasAuthManager s1 = hasAuthManager s" "botCreated s1 = botCreated s"
    "Invoke CreatorCreateSong i \<in> set (trace s1)" "set (trace s) \<subseteq> set (trace s1)"
    "filter is_batch_complete (trace s1) = filter is_batch_complete (trace s)"
    unfolding job_effect_def by simp_all
  have step: "batch_from ev N i (Suc n) s = batch_from ev N (Suc i) n s1"
    using j by (simp add: thenP_def bindP_def)
  note ih = Suc.IH [OF next_eq, of s1]
  have arith_s: "ds + (n - (if Suc i \<le> k \<and> k < N then 1 else 0))
               = Suc n - (if i \<le> k \<and> k < N then 1 else 0)"
    using dsdf next_eq iN by (auto simp: Suc_le_eq le_less)
  have arith_f: "df + (if Suc i \<le> k \<and> k < N then 1 else 0)
               = (if i \<le> k \<and> k < N then 1 else (0::nat))"
    using dsdf iN by (auto simp: Suc_le_eq le_less)
  have mem: "\<forall>j. i \<le> j \<and> j < N \<longrightarrow>
      Invoke CreatorCreateSong j \<in> set (trace (snd (batch_from ev N (Suc i) n s1)))"
  proof (intro allI impI)
    fix j assume "i \<le> j \<and> j < N"
    then consider "j = i" | "Suc i \<le> j \<and> j < N" by arith
    then show "Invoke CreatorCreateSong j \<in> set (trace (snd (batch_from ev N (Suc i) n s1)))"
    proof cases
      case 1
      with e1(5) ih show ?thesis by blast
    next
      case 2
      with ih show ?thesis by blast
    qed
  qed
  have sub: "set (trace s) \<subseteq> set (trace (snd (batch_from ev N (Suc i) n s1)))"
    using e1(6) ih by blast
  show ?case
    unfolding step
    using ih e1(1-4,7) arith_s arith_f mem sub by (simp add: add.assoc)
qed

text \<open>
  Claim C3. In a batch of \<open>N\<close> jobs where job \<open>k\<close> alone fails, at its creation step
  (initialisation, login and the release of the session succeed), the creation step is
  attempted for every job, those after \<open>k\<close> included, and the handler ends by
  broadcasting \<open>batch_complete\<close>, once, with \<open>N - 1\<close> successes and one failure.
\<close>

theorem batch_failure_isolated:
  assumes "k < N" and "one_failure ev N k"
    and "auth_initialize ev = Inr ()" and "auth_login ev = Inr v" and "auth_close ev = Inr ()"
  shows "(\<forall>j<N. Invoke CreatorCreateSong j \<in> set (trace (snd (batch_run ev N initial))))
       \<and> last (trace (snd (batch_run ev N initial))) = BatchComplete N (N - 1) 1
       \<and> filter is_batch_complete (trace (snd (batch_run ev N initial)))
           = [BatchComplete N (N - 1) 1]"
proof -
  let ?s0 = "\<lparr>trace = [Status ''loading_config'', Status ''initializing_browser'',
                Invoke AuthInitialize 0, Status ''authenticating'', Invoke AuthLogin 0,
                Status ''authenticated''],
              hasAuthManager = True, botCreated = True, currentBot = True,
              isProcessing = True, successCount = 0, failCount = 0\<rparr>"
  note lp = batch_from_one_failure [OF assms(2), of 0 N ?s0]
  obtain s2 where loop: "batch_from ev N 0 N ?s0 = (Inr (), s2)"
    using lp by (cases "batch_from ev N 0 N ?s0") auto
  from lp loop assms(1) have s2: "successCount s2 = N - 1" "failCount s2 = 1"
    "hasAuthManager s2" "botCreated s2"
    "\<forall>j<N. Invoke CreatorCreateSong j \<in> set (trace s2)"
    "filter is_batch_complete (trace s2) = []"
    by simp_all
  have run: "trace (snd (batch_run ev N initial)) =
      trace s2 @ [Invoke BotClose 0, Invoke AuthClose 0, BatchComplete N (N - 1) 1]"
    using loop assms(3,4,5) s2(1-4)
    by (simp add: batch_run_def try_finally_def bot_initialize_def bot_login_def bot_close_def
          prog_defs initial_def)
  show ?thesis using s2(5,6) by (simp add: run)
qed

text \<open>Claim C3 on a batch of three jobs whose second job fails at creation.\<close>

theorem batch_failure_isolated_witness:
  "(1::nat) < 3 \<and> one_failure batch_example 3 1
   \<and> auth_initialize batch_example = Inr () \<and> auth_login batch_example = Inr LoginTrue
   \<and> auth_close batch_example = Inr ()
   \<and> Invoke CreatorCreateSong 2 \<in> set (trace (snd (batch_run batch_example 3 initial)))
   \<and> last (trace (snd (batch_run batch_example 3 initial))) = BatchComplete 3 2 1"
proof -
  have of1: "one_failure batch_example 3 1"
    unfolding one_failure_def
  proof (intro allI impI)
    fix i :: nat assume "i < 3"
    then consider "i = 0" | "i = 1" | "i = 2" by arith
    then show "(preset_usage batch_example i = None \<or> preset_usage batch_example i = Some (Inr ()))
        \<and> (if i = 1 then \<exists>e. creator_createSong batch_example i = Inl e
            else creator_createSong batch_example i = Inr ()
               \<and> page_waitForTimeout batch_example i = Inr ()
               \<and> (\<exists>d. dm_downloadBothSongs batch_example i = Inr d))"
      by cases (simp_all add: batch_example_def)
  qed
  have h: "auth_initialize batch_example = Inr ()" "auth_login batch_example = Inr LoginTrue"
    "auth_close batch_example = Inr ()"
    by (simp_all add: batch_example_def)
  have k: "(1::nat) < 3" by simp
  from batch_failure_isolated [OF k of1 h]
  have "(\<forall>j<3. Invoke CreatorCreateSong j \<in> set (trace (snd (batch_run batch_example 3 initial))))
      \<and> last (trace (snd (batch_run batch_example 3 initial))) = BatchComplete 3 (3 - 1) 1"
    by blast
  then have "Invoke CreatorCreateSong 2 \<in> set (trace (snd (batch_run batch_example 3 initial)))
      \<and> last (trace (snd (batch_run batch_example 3 initial))) = BatchComplete 3 2 1"
    by simp
  with of1 h k show ?thesis by blast
qed

section \<open>Login failures\<close>

text \<open>\<open>loginWithGoogle\<close> never throws: every failure becomes a result object.\<close>

lemma loginWithGoogle_never_throws: "\<exists>v. loginWithGoogle p email password = Inr v"
  by (cases "loginWithGoogle p email password")
     (auto simp: loginWithGoogle_def catchR_def split: sum.splits)

lemma fillEmail_no_field: "fillEmail no_email_field = Inl (Error ''Could not find email input field'')"
  by (simp add: fillEmail_def email_selectors_def no_email_field_def)

lemma no_email_field_login: "auth_persistent_login no_email_field = Inr (LoginObject False)"
proof -
  have "\<not> checkIfLoggedIn no_email_field"
    by (simp add: checkIfLoggedIn_def no_email_field_def result_defs)
  moreover have "loginWithGoogle no_email_field ''user@example.com'' ''secret'' = Inr (LoginObject False)"
    using fillEmail_no_field
    by (simp add: loginWithGoogle_def automated_entry_def result_defs button_found_def
          sign_in_selectors_def google_selectors_def no_email_field_def)
  ultimately show ?thesis
    by (simp add: auth_persistent_login_def no_email_field_def)
qed

text \<open>
  Claim C1 fails on the code. When \<open>fillEmail\<close> finds no field, \<open>loginWithGoogle\<close>
  catches the error and returns \<open>{ success: false }\<close>; \<open>SunoBot.login\<close> does not look at
  the value, broadcasts \<open>authenticated\<close> and returns \<open>true\<close>. No error reaches the caller.
\<close>

theorem google_login_failure_reported_as_success:
  "fillEmail no_email_field = Inl (Error ''Could not find email input field'')
   \<and> auth_persistent_login no_email_field = Inr (LoginObject False)
   \<and> fst (bot_login (login_env no_email_field) initial) = Inr True
   \<and> trace (snd (bot_login (login_env no_email_field) initial))
       = [Status ''authenticating'', Invoke AuthLogin 0, Status ''authenticated'']"
  using fillEmail_no_field no_email_field_login
  by (simp add: bot_login_def login_env_def prog_defs initial_def)

section \<open>Required style, optional title\<close>

lemma addSongTitle_never_throws: "addSongTitle p = Inr ()"
  by (simp add: addSongTitle_def result_defs split: sum.splits)

lemma fillStyles_not_found:
  assumes "\<forall>t. find_style_input p \<noteq> Inr (Some t)"
  shows "\<exists>e. fillStyles p = Inl e"
proof (cases "pause p")
  case (Inl e)
  then show ?thesis by (simp add: fillStyles_def result_defs)
next
  case (Inr u)
  show ?thesis
  proof (cases "find_style_input p")
    case (Inl e)
    with Inr show ?thesis by (simp add: fillStyles_def result_defs)
  next
    case found: (Inr st)
    with assms have "st = None" by (cases st) auto
    with Inr found show ?thesis by (simp add: fillStyles_def result_defs)
  qed
qed

lemma createSong_style_required:
  assumes "\<forall>t. find_style_input p \<noteq> Inr (Some t)"
  shows "\<exists>e. creator_createSong_page p title lyrics style = Inl e"
proof -
  from fillStyles_not_found [OF assms] obtain e where f: "fillStyles p = Inl e" by blast
  have "\<exists>e. thenR (thenR (navigate p) (pause p))
       (thenR (scroll p)
       (thenR (selectCustomMode p)
       (thenR (pause p)
       (thenR (if has_text lyrics then thenR (fillLyrics p) (pause p) else Inr ())
       (thenR (fillStyles p) rest))))) = Inl e" for rest :: "song_created result"
    by (rule thenR_fails_later, rule thenR_fails_later, rule thenR_fails_later,
        rule thenR_fails_later, rule thenR_fails_later) (simp add: f result_defs)
  then obtain e' where "thenR (thenR (navigate p) (pause p))
       (thenR (scroll p)
       (thenR (selectCustomMode p)
       (thenR (pause p)
       (thenR (if has_text lyrics then thenR (fillLyrics p) (pause p) else Inr ())
       (thenR (fillStyles p)
       (thenR (if title \<noteq> [] then thenR (pause p) (addSongTitle p) else Inr ())
       (thenR (scroll p)
       (thenR (clickCreate p)
              (Inr \<lparr>created_title = title_or_untitled title, created_style = style\<rparr>))))))))) = Inl e'"
    by blast
  then show ?thesis by (simp add: creator_createSong_page_def catchR_def)
qed

lemma createSong_ignores_title_fields:
  "creator_createSong_page
     (p\<lparr>title_button_visible := tb, title_button_click := tc, title_visible := tv, title_type := tt\<rparr>)
     title lyrics style
   = creator_createSong_page p title lyrics style"
proof -
  let ?q = "p\<lparr>title_button_visible := tb, title_button_click := tc, title_visible := tv,
               title_type := tt\<rparr>"
  have "selectCustomMode ?q = selectCustomMode p" by (simp add: selectCustomMode_def)
  moreover have "fillLyrics ?q = fillLyrics p" by (simp add: fillLyrics_def)
  moreover have "fillStyles ?q = fillStyles p"
    by (simp add: fillStyles_def find_style_input_def result_defs
          split: option.splits sum.splits)
  moreover have "clickCreate ?q = clickCreate p"
    by (simp add: clickCreate_def create_button_found_def checkForPostCreateIssues_def)
  moreover have "addSongTitle ?q = addSongTitle p" by (simp only: addSongTitle_never_throws)
  ultimately show ?thesis by (simp add: creator_createSong_page_def)
qed

text \<open>
  Claim C7. When no style field is located, \<open>createSong\<close> fails with an error. Locating
  the title field is not fatal: \<open>addSongTitle\<close> never throws, and the outcome of
  \<open>createSong\<close> does not depend on what the page answers about the title field.
\<close>

theorem style_required_title_optional:
  "((\<forall>t. find_style_input p \<noteq> Inr (Some t)) \<longrightarrow>
      (\<exists>e. creator_createSong_page p title lyrics style = Inl e))
   \<and> addSongTitle p = Inr ()
   \<and> creator_createSong_page
       (p\<lparr>title_button_visible := tb, title_button_click := tc, title_visible := tv,
           title_type := tt\<rparr>) title lyrics style
     = creator_createSong_page p title lyrics style"
  using createSong_style_required addSongTitle_never_throws createSong_ignores_title_fields
  by blast

text \<open>
  Claim C7 on two pages: without a title field the call succeeds, without a style field
  it throws.
\<close>

theorem style_required_title_optional_witness:
  "find (title_visible page_without_title) title_selectors = None
   \<and> creator_createSong_page page_without_title test_title [] test_style
       = Inr \<lparr>created_title = test_title, created_style = test_style\<rparr>
   \<and> (\<forall>t. find_style_input page_without_style \<noteq> Inr (Some t))
   \<and> (\<exists>e. creator_createSong_page page_without_style test_title [] test_style = Inl e)"
proof -
  have a: "find (title_visible page_without_title) title_selectors = None"
    by (simp add: page_without_title_def title_selectors_def)
  have s: "find_style_input page_without_title = Inr (Some style_field)"
    by (simp add: find_style_input_def page_without_title_def style_selectors_def
          style_field_def lyrics_placeholder_def to_lower_def lower_char_def)
  have b: "creator_createSong_page page_without_title test_title [] test_style
       = Inr \<lparr>created_title = test_title, created_style = test_style\<rparr>"
    unfolding creator_createSong_page_def fillStyles_def s
    by (simp add: result_defs selectCustomMode_def button_found_def custom_selectors_def
          has_text_def addSongTitle_def title_selectors_def clickCreate_def
          create_button_found_def create_selectors_def checkForPostCreateIssues_def
          title_or_untitled_def test_title_def page_without_title_def style_field_def)
  have c: "find_style_input page_without_style = Inr None"
    by (simp add: find_style_input_def page_without_style_def page_without_title_def
          style_selectors_def lyrics_field_def bindR_def)
  then have c': "\<forall>t. find_style_input page_without_style \<noteq> Inr (Some t)" by simp
  from style_required_title_optional [of page_without_style test_title "[]" test_style] c'
  have "\<exists>e. creator_createSong_page page_without_style test_title [] test_style = Inl e"
    by blast
  with a b c' show ?thesis by blast
qed

section \<open>Two artifacts or none\<close>

lemma save_and_verify_positive:
  "save_and_verify d songTitle version = Inr x \<Longrightarrow> 0 < size_bytes x"
  by (auto simp: save_and_verify_def result_defs split: sum.splits if_splits)

lemma save_and_verify_empty:
  "stat d = Inr 0 \<Longrightarrow> \<exists>e. save_and_verify d songTitle version = Inl e"
  by (auto simp: save_and_verify_def result_defs split: sum.splits)

lemma downloadSingleSong_positive:
  "downloadSingleSong d songTitle version songIndex = Inr x \<Longrightarrow> 0 < size_bytes x"
  by (auto simp: downloadSingleSong_def catchR_rethrow thenR_Inr
        dest: save_and_verify_positive)

lemma downloadSingleSong_empty:
  assumes "stat d = Inr 0"
  shows "\<exists>e. downloadSingleSong d songTitle version songIndex = Inl e"
proof (cases "downloadSingleSong d songTitle version songIndex")
  case (Inl e)
  then show ?thesis by blast
next
  case (Inr x)
  then have "save_and_verify d songTitle version = Inr x"
    by (simp add: downloadSingleSong_def catchR_rethrow thenR_Inr)
  with save_and_verify_empty [OF assms, of songTitle version] show ?thesis by auto
qed

lemma downloadSingleSong_downloadable:
  assumes "downloadable d songIndex" and "stat d = Inr n" and "0 < n"
  shows "downloadSingleSong d songTitle version songIndex =
           Inr \<lparr>path = downloadPath d @ ''/'' @ download_filename d songTitle version,
                size_bytes = n, filename = download_filename d songTitle version\<rparr>"
  using assms
  by (simp add: downloadSingleSong_def downloadable_def save_and_verify_def result_defs)

lemma downloadBothSongs_Inr:
  assumes "downloadBothSongs d1 wait d2 songTitle = Inr r"
  shows "\<exists>x1 x2. downloadSingleSong d1 songTitle 1 0 = Inr x1
           \<and> downloadSingleSong d2 songTitle 2 1 = Inr x2
           \<and> r = \<lparr>downloads = [x1, x2], count = 2\<rparr>"
  using assms
  by (auto simp: downloadBothSongs_def catchR_rethrow bindR_Inr thenR_Inr)

text \<open>
  Claim C5. When both variants are downloadable and their saved files are not empty,
  \<open>downloadBothSongs\<close> returns two artifacts. Whatever it returns holds exactly two
  artifacts, each of positive size. When the saved file of either variant has zero
  bytes, the call throws: it never returns a partial result.
\<close>

theorem download_two_or_fail:
  "(downloadable d1 0 \<and> downloadable d2 1 \<and> wait = Inr ()
      \<and> stat d1 = Inr n1 \<and> 0 < n1 \<and> stat d2 = Inr n2 \<and> 0 < n2
    \<longrightarrow> (\<exists>r. downloadBothSongs d1 wait d2 songTitle = Inr r))
   \<and> (downloadBothSongs d1 wait d2 songTitle = Inr r
    \<longrightarrow> count r = 2 \<and> length (downloads r) = 2 \<and> (\<forall>x \<in> set (downloads r). 0 < size_bytes x))
   \<and> (stat d1 = Inr 0 \<or> stat d2 = Inr 0
    \<longrightarrow> (\<exists>e. downloadBothSongs d1 wait d2 songTitle = Inl e))"
proof (intro conjI impI)
  assume a: "downloadable d1 0 \<and> downloadable d2 1 \<and> wait = Inr ()
      \<and> stat d1 = Inr n1 \<and> 0 < n1 \<and> stat d2 = Inr n2 \<and> 0 < n2"
  then have "\<exists>x1. downloadSingleSong d1 songTitle 1 0 = Inr x1"
    and "\<exists>x2. downloadSingleSong d2 songTitle 2 1 = Inr x2"
    using downloadSingleSong_downloadable by blast+
  with a show "\<exists>r. downloadBothSongs d1 wait d2 songTitle = Inr r"
    by (auto simp: downloadBothSongs_def result_defs)
next
  assume "downloadBothSongs d1 wait d2 songTitle = Inr r"
  from downloadBothSongs_Inr [OF this] obtain x1 x2 where
    x: "downloadSingleSong d1 songTitle 1 0 = Inr x1" "downloadSingleSong d2 songTitle 2 1 = Inr x2"
    and r: "r = \<lparr>downloads = [x1, x2], count = 2\<rparr>" by blast
  from x have "0 < size_bytes x1" "0 < size_bytes x2"
    by (auto dest: downloadSingleSong_positive)
  with r show "count r = 2" "length (downloads r) = 2" "\<forall>x \<in> set (downloads r). 0 < size_bytes x"
    by simp_all
next
  assume z: "stat d1 = Inr 0 \<or> stat d2 = Inr 0"
  show "\<exists>e. downloadBothSongs d1 wait d2 songTitle = Inl e"
  proof (cases "downloadBothSongs d1 wait d2 songTitle")
    case (Inl e)
    then show ?thesis by blast
  next
    case (Inr r)
    from downloadBothSongs_Inr [OF this] obtain x1 x2 where
      "downloadSingleSong d1 songTitle 1 0 = Inr x1" "downloadSingleSong d2 songTitle 2 1 = Inr x2"
      by blast
    with z downloadSingleSong_empty [of d1 songTitle 1 0] downloadSingleSong_empty [of d2 songTitle 2 1]
    show ?thesis by auto
  qed
qed

text \<open>
  Claim C5 on a listing with two visible rows: two files of 1024 and 2048 bytes give two
  artifacts; when the second file is empty the call throws.
\<close>

theorem download_two_or_fail_witness:
  "downloadable (working_page 1024) 0 \<and> downloadable (working_page 2048) 1
   \<and> (\<exists>r. downloadBothSongs (working_page 1024) (Inr ()) (working_page 2048) ''Test'' = Inr r
        \<and> count r = 2 \<and> map size_bytes (downloads r) = [1024, 2048])
   \<and> stat (working_page 0) = Inr 0
   \<and> (\<exists>e. downloadBothSongs (working_page 1024) (Inr ()) (working_page 0) ''Test'' = Inl e)"
proof -
  have loc: "locate_menu_button (working_page n) 0 = Inr ()"
    "locate_menu_button (working_page n) 1 = Inr ()" for n
    by (simp_all add: locate_menu_button_def working_page_def menu_button_selectors_def
          result_defs)
  have dl: "downloadable (working_page n) 0" "downloadable (working_page n) 1" for n
    using loc [of n]
    by (simp_all add: downloadable_def open_menus_def trigger_download_def result_defs
          working_page_def)
  have st: "stat (working_page n) = Inr n" for n
    by (simp add: working_page_def)
  have one: "downloadSingleSong (working_page 1024) ''Test'' 1 0 =
      Inr \<lparr>path = downloadPath (working_page 1024) @ ''/'' @ download_filename (working_page 1024) ''Test'' 1,
           size_bytes = 1024, filename = download_filename (working_page 1024) ''Test'' 1\<rparr>"
    by (rule downloadSingleSong_downloadable [OF dl(1) st]) simp
  have two: "downloadSingleSong (working_page 2048) ''Test'' 2 1 =
      Inr \<lparr>path = downloadPath (working_page 2048) @ ''/'' @ download_filename (working_page 2048) ''Test'' 2,
           size_bytes = 2048, filename = download_filename (working_page 2048) ''Test'' 2\<rparr>"
    by (rule downloadSingleSong_downloadable [OF dl(2) st]) simp
  have ok: "\<exists>r. downloadBothSongs (working_page 1024) (Inr ()) (working_page 2048) ''Test'' = Inr r
        \<and> count r = 2 \<and> map size_bytes (downloads r) = [1024, 2048]"
    unfolding downloadBothSongs_def one two by (simp add: result_defs)
  from download_two_or_fail [of "working_page 1024" "working_page 0" "Inr ()" 1024 0 "''Test''"] st
  have "\<exists>e. downloadBothSongs (working_page 1024) (Inr ()) (working_page 0) ''Test'' = Inl e"
    by blast
  with dl ok st show ?thesis by blast
qed

section \<open>The status checks never throw\<close>






section \<open>When the status check reports completion\<close>











section \<open>Timing out while the listing is generating\<close>






text \<open>
  \<open>SunoBot.waitForCompletion\<close>, the wait the batch loop calls, reports completion
  whenever its pause returns; the listing plays no part in it.
\<close>

lemma bot_waitForCompletion_reports_completed:
  "page_waitForTimeout ev i = Inr () \<Longrightarrow>
     bot_waitForCompletion ev i s =
       (Inr True, s\<lparr>trace := trace s @ [Status ''waiting_for_completion'',
                                          Invoke PageWaitForTimeout i,
                                          Status ''song_completed'']\<rparr>)"
  by (simp add: bot_waitForCompletion_def prog_defs)




end
